theory Spec2Isabelle
  imports Complex_Main "HOL-Library.Multiset"
begin

section \<open>Strings: the two library operations the script relies on\<close>

text \<open>
  The script \<^verbatim>\<open>scripts/clean_analysis.py\<close> reads every annotation field through
  \<^verbatim>\<open>str(value).split(';')\<close>, \<^verbatim>\<open>code.strip()\<close> and
  \<^verbatim>\<open>code.split(':')[0]\<close>. A Python string is modelled as a \<^typ>\<open>string\<close>, one
  \<^typ>\<open>char\<close> per code point below 256. \<^verbatim>\<open>str.strip()\<close> without argument removes
  the characters for which \<^verbatim>\<open>str.isspace\<close> holds; below 256 these are the code points
  9 to 13, 28 to 32, 133 and 160.
\<close>

definition isspace :: "char \<Rightarrow> bool" where
  "isspace c = (c \<in> set [CHR 0x09, CHR 0x0A, CHR 0x0B, CHR 0x0C, CHR 0x0D,
                           CHR 0x1C, CHR 0x1D, CHR 0x1E, CHR 0x1F, CHR 0x20,
                           CHR 0x85, CHR 0xA0])"

definition strip :: "string \<Rightarrow> string" where
  "strip s = rev (dropWhile isspace (rev (dropWhile isspace s)))"

text \<open>
  \<^verbatim>\<open>s.split(sep)\<close> for a separator of one character: the pieces between the
  occurrences of the separator, in order; there is always at least one piece
  (\<^verbatim>\<open>''.split(';') == ['']\<close>). The second branch of the \<^theory_text>\<open>case\<close> is never
  taken (lemma \<open>split_nonempty\<close> below).
\<close>

fun split :: "char \<Rightarrow> string \<Rightarrow> string list" where
  "split sep [] = [[]]"
| "split sep (c # cs) =
     (if c = sep then [] # split sep cs
      else (case split sep cs of p # ps \<Rightarrow> (c # p) # ps | [] \<Rightarrow> [[c]]))"

section \<open>The coded-field parser\<close>

text \<open>
  The same three lines occur in every function that reads limitation codes
  (\<^verbatim>\<open>analyze_specific_limitations\<close>, \<^verbatim>\<open>analyze_top5_limitations_trends\<close>,
  \<^verbatim>\<open>analyze_limitation_cooccurrence\<close>):
  \<^verbatim>\<open>
  codes = [code.strip() for code in str(value).split(';')]
  clean_codes = [code.split(':')[0].strip() if ':' in code else code.strip()
                 for code in codes]
  \<close>
\<close>

definition codes :: "string \<Rightarrow> string list" where
  "codes v = map strip (split CHR '';'' v)"

definition code_key :: "string \<Rightarrow> string" where
  "code_key code =
     (if CHR '':'' \<in> set code then strip (hd (split CHR '':'' code)) else strip code)"

definition clean_codes :: "string \<Rightarrow> string list" where
  "clean_codes v = map code_key (codes v)"

text \<open>
  A field of the data frame is either missing (\<^verbatim>\<open>NaN\<close>, here \<^const>\<open>None\<close>) or holds a
  value, of which the script only ever reads \<^verbatim>\<open>str(value)\<close>. Missing fields are
  skipped before parsing, by \<^verbatim>\<open>df[col].dropna()\<close> in the counting loops and by
  \<^verbatim>\<open>if pd.notna(value)\<close> in the matrix loop.
\<close>

type_synonym field = "string option"

definition dropna :: "field list \<Rightarrow> string list" where
  "dropna xs = [v. Some v \<leftarrow> xs]"

definition code_extractor :: "field \<Rightarrow> string list" where
  "code_extractor value = (case value of None \<Rightarrow> [] | Some v \<Rightarrow> clean_codes v)"

section \<open>The data frame\<close>

text \<open>
  The functions receive the frame \<^verbatim>\<open>df\<close> and the list \<^verbatim>\<open>limitation_columns\<close> of the
  five category columns, which \<^verbatim>\<open>load_data\<close> takes from the frame itself. A row (one
  study) gives the field of every column; \<^verbatim>\<open>df[col]\<close> is the series of that column's
  fields in row order and \<^verbatim>\<open>len(df)\<close> is the number of rows.
\<close>

type_synonym row = "string \<Rightarrow> field"
type_synonym dataframe = "row list"

definition column :: "dataframe \<Rightarrow> string \<Rightarrow> field list" where
  "column df col = map (\<lambda>r. r col) df"

section \<open>The code frequency table\<close>

text \<open>
  \<^verbatim>\<open>
  limitation_counts = {}
  for col in limitation_columns:
      non_null_data = df[col].dropna()
      for value in non_null_data:
          codes = [code.strip() for code in str(value).split(';')]
          for code in codes:
              code_key = code.split(':')[0].strip() if ':' in code else code.strip()
              if code_key in limitation_counts:
                  limitation_counts[code_key] += 1
              else:
                  limitation_counts[code_key] = 1
  \<close>
  A Python dictionary keeps its keys in insertion order, and that order is the row order of
  the frame built from it, so the dictionary is an association list: an existing key is
  updated in place, a new key is appended.
\<close>

type_synonym counts = "(string \<times> nat) list"

fun dict_incr :: "counts \<Rightarrow> string \<Rightarrow> counts" where
  "dict_incr [] key = [(key, 1)]"
| "dict_incr ((k, n) # rest) key =
     (if k = key then (k, n + 1) # rest else (k, n) # dict_incr rest key)"

definition count_value :: "counts \<Rightarrow> string \<Rightarrow> counts" where
  "count_value d v = foldl (\<lambda>d' code. dict_incr d' (code_key code)) d (codes v)"

definition count_column :: "dataframe \<Rightarrow> counts \<Rightarrow> string \<Rightarrow> counts" where
  "count_column df d col = foldl count_value d (dropna (column df col))"

definition limitation_counts :: "dataframe \<Rightarrow> string list \<Rightarrow> counts" where
  "limitation_counts df limitation_columns = foldl (count_column df) [] limitation_columns"

text \<open>
  \<^verbatim>\<open>sort_values('Count', ascending=False)\<close>: the rows in non-increasing order of
  their count. The script leaves the library's default sorting algorithm in place, which is
  not stable, so the order among rows of equal count is not fixed by the script. That choice
  is the parameter \<open>ties\<close>, a rank on rows: rows of equal count come in increasing rank
  (and in their order in the frame where the rank is equal too). Every arrangement of
  distinct rows in non-increasing count is the result for some \<open>ties\<close> (lemma
  \<open>sort_values_any_order\<close>), and the functions below carry the parameter along.
\<close>

definition sort_values :: "('a \<Rightarrow> nat) \<Rightarrow> ('a \<Rightarrow> nat) \<Rightarrow> 'a list \<Rightarrow> 'a list" where
  "sort_values ties key d = rev (sort_key key (rev (sort_key ties d)))"

text \<open>
  \<^verbatim>\<open>limitations_df['Percentage'] = (limitations_df['Count'] / len(df)) * 100\<close>.
  The quotient is taken exactly; the rounding of the script's floating-point division is
  not part of the model.
\<close>

definition percentage :: "nat \<Rightarrow> nat \<Rightarrow> rat" where
  "percentage n total_studies = (of_nat n / of_nat total_studies) * 100"

definition analyze_specific_limitations ::
    "(string \<times> nat \<times> rat \<Rightarrow> nat) \<Rightarrow> dataframe \<Rightarrow> string list
       \<Rightarrow> (string \<times> nat \<times> rat) list" where
  "analyze_specific_limitations ties df limitation_columns =
     sort_values ties (\<lambda>(k, n, p). n)
       (map (\<lambda>(k, n). (k, n, percentage n (length df)))
            (limitation_counts df limitation_columns))"

section \<open>The co-occurrence matrix\<close>

text \<open>
  \<^verbatim>\<open>
  top_10_limitations = top_limitations_df.head(10).index.tolist()
  cooccurrence_matrix = pd.DataFrame(0, index=top_10_limitations, columns=top_10_limitations)
  for col in limitation_columns:
      for idx, value in df[col].items():
          if pd.notna(value):
              codes = [code.strip() for code in str(value).split(';')]
              clean_codes = [... for code in codes]
              present_limitations = [lim for lim in top_10_limitations if lim in clean_codes]
              for i, lim1 in enumerate(present_limitations):
                  for lim2 in present_limitations[i+1:]:
                      cooccurrence_matrix.loc[lim1, lim2] += 1
                      cooccurrence_matrix.loc[lim2, lim1] += 1
  \<close>
  The matrix is read and written by label, so it is a function of two labels. Its cells
  are those whose two labels are top codes; the loop never touches another pair of labels,
  which stays \<open>0\<close> in the model.
\<close>

type_synonym matrix = "string \<Rightarrow> string \<Rightarrow> nat"

definition top_10_limitations ::
    "(string \<times> nat \<Rightarrow> nat) \<Rightarrow> dataframe \<Rightarrow> string list \<Rightarrow> string list" where
  "top_10_limitations ties df limitation_columns =
     map fst (take 10 (sort_values ties snd (limitation_counts df limitation_columns)))"

definition incr :: "matrix \<Rightarrow> string \<Rightarrow> string \<Rightarrow> matrix" where
  "incr M a b = M(a := (M a)(b := M a b + 1))"

definition bump_pair :: "string \<Rightarrow> matrix \<Rightarrow> string \<Rightarrow> matrix" where
  "bump_pair lim1 M lim2 = incr (incr M lim1 lim2) lim2 lim1"

fun pair_loop :: "matrix \<Rightarrow> string list \<Rightarrow> matrix" where
  "pair_loop M [] = M"
| "pair_loop M (lim1 # rest) = pair_loop (foldl (bump_pair lim1) M rest) rest"

definition present_limitations :: "string list \<Rightarrow> string list \<Rightarrow> string list" where
  "present_limitations tops cl = filter (\<lambda>lim. lim \<in> set cl) tops"

definition process_value :: "string list \<Rightarrow> matrix \<Rightarrow> field \<Rightarrow> matrix" where
  "process_value tops M value =
     (case value of None \<Rightarrow> M
      | Some v \<Rightarrow> pair_loop M (present_limitations tops (clean_codes v)))"

definition process_column :: "string list \<Rightarrow> dataframe \<Rightarrow> matrix \<Rightarrow> string \<Rightarrow> matrix" where
  "process_column tops df M col = foldl (process_value tops) M (column df col)"

definition fill_matrix :: "string list \<Rightarrow> dataframe \<Rightarrow> string list \<Rightarrow> matrix" where
  "fill_matrix tops df limitation_columns =
     foldl (process_column tops df) (\<lambda>a b. 0) limitation_columns"

definition cooccurrence_matrix ::
    "(string \<times> nat \<Rightarrow> nat) \<Rightarrow> dataframe \<Rightarrow> string list \<Rightarrow> matrix" where
  "cooccurrence_matrix ties df limitation_columns =
     fill_matrix (top_10_limitations ties df limitation_columns) df limitation_columns"

text \<open>
  The function returns \<^verbatim>\<open>cooccurrence_pct = (cooccurrence_matrix / total_studies) * 100\<close>
  with \<^verbatim>\<open>total_studies = len(df)\<close>.
  A frame without rows has no codes, hence a matrix without cells, and nothing is divided;
  the model gives \<open>0\<close> there.
\<close>

definition analyze_limitation_cooccurrence ::
    "(string \<times> nat \<Rightarrow> nat) \<Rightarrow> dataframe \<Rightarrow> string list \<Rightarrow> string \<Rightarrow> string \<Rightarrow> rat" where
  "analyze_limitation_cooccurrence ties df limitation_columns =
     (\<lambda>a b. percentage (cooccurrence_matrix ties df limitation_columns a b) (length df))"

section \<open>Notions used to state the properties\<close>

text \<open>
  The part of a field's contribution to cell \<open>(a, b)\<close> that does not depend on the matrix
  it is added to: one if \<open>a\<close> and \<open>b\<close> are different labels that both occur among the
  field's codes, zero otherwise.
\<close>

definition pair_delta :: "string list \<Rightarrow> string \<Rightarrow> string \<Rightarrow> nat" where
  "pair_delta xs a b = (if a \<noteq> b \<and> a \<in> set xs \<and> b \<in> set xs then 1 else 0)"

definition field_delta :: "string list \<Rightarrow> field \<Rightarrow> string \<Rightarrow> string \<Rightarrow> nat" where
  "field_delta tops value a b =
     (case value of None \<Rightarrow> 0
      | Some v \<Rightarrow> pair_delta (present_limitations tops (clean_codes v)) a b)"

text \<open>
  The extractor as the specification words it: split on \<open>;\<close>, trim each piece, keep the
  text before the first \<open>:\<close> if the piece has one and the whole piece otherwise, trim again.
\<close>

definition spec_code_extractor :: "string \<Rightarrow> string list" where
  "spec_code_extractor s =
     map (\<lambda>piece. let p = strip piece
                  in strip (if CHR '':'' \<in> set p then takeWhile (\<lambda>c. c \<noteq> CHR '':'') p else p))
         (split CHR '';'' s)"

text \<open>
  What one record contributes according to the specification: the codes of all its category
  fields, flattened; of these the ones among the top codes, without duplicates.
\<close>

definition record_codes :: "string list \<Rightarrow> row \<Rightarrow> string list" where
  "record_codes cols r = concat (map (\<lambda>col. code_extractor (r col)) cols)"

definition qualifying :: "string list \<Rightarrow> string list \<Rightarrow> row \<Rightarrow> string list" where
  "qualifying tops cols r = remdups (filter (\<lambda>c. c \<in> set tops) (record_codes cols r))"

text \<open>The number of records in which both codes appear, and in which one code appears.\<close>

definition records_with_both ::
    "string list \<Rightarrow> dataframe \<Rightarrow> string list \<Rightarrow> string \<Rightarrow> string \<Rightarrow> nat" where
  "records_with_both tops df cols i j =
     length (filter (\<lambda>r. i \<in> set (qualifying tops cols r) \<and> j \<in> set (qualifying tops cols r)) df)"

definition records_containing :: "dataframe \<Rightarrow> string list \<Rightarrow> string \<Rightarrow> nat" where
  "records_containing df cols c = length (filter (\<lambda>r. c \<in> set (record_codes cols r)) df)"

text \<open>The number of tokens equal to a code, over all fields of the given columns.\<close>

definition token_count :: "dataframe \<Rightarrow> string list \<Rightarrow> string \<Rightarrow> nat" where
  "token_count df cols c = (\<Sum>col\<leftarrow>cols. \<Sum>r\<leftarrow>df. count_list (code_extractor (r col)) c)"

text \<open>The count a dictionary holds for a key, zero for a key it does not have.\<close>

definition count_of :: "counts \<Rightarrow> string \<Rightarrow> nat" where
  "count_of d c = (case map_of d c of None \<Rightarrow> 0 | Some n \<Rightarrow> n)"

text \<open>The sum of the cells off the diagonal of a matrix with the given labels.\<close>

definition offdiag_sum :: "string list \<Rightarrow> matrix \<Rightarrow> nat" where
  "offdiag_sum tops M = (\<Sum>a\<leftarrow>tops. \<Sum>b\<leftarrow>tops. if a \<noteq> b then M a b else 0)"

section \<open>Concrete data frames\<close>

text \<open>The five category columns that \<^verbatim>\<open>load_data\<close> returns.\<close>

definition load_data_limitation_columns :: "string list" where
  "load_data_limitation_columns =
     [''-- SAMPLING & DESIGN --'', ''-- MEASUREMENT & DATA --'', ''-- CONTEXT & LOGISTICS --'',
      ''-- ANALYSIS & GENERALIZABILITY --'', ''-- RESEARCH CAPACITY --'']"

text \<open>One study that reports the codes \<open>A\<close> and \<open>B\<close> in two of its category fields.\<close>

definition study_pair_twice :: row where
  "study_pair_twice =
     map_of [(''-- SAMPLING & DESIGN --'', ''A: small sample; B: single site''),
             (''-- MEASUREMENT & DATA --'', ''B; A'')]"

text \<open>One study that reports \<open>A\<close> in one category field and \<open>B\<close> in another.\<close>

definition study_pair_apart :: row where
  "study_pair_apart =
     map_of [(''-- SAMPLING & DESIGN --'', ''A: small sample''),
             (''-- CONTEXT & LOGISTICS --'', ''B: no funding'')]"

text \<open>One study whose codes are \<open>A\<close>, \<open>B\<close> in one field and \<open>C\<close> in another.\<close>

definition study_three_codes :: row where
  "study_three_codes =
     map_of [(''-- SAMPLING & DESIGN --'', ''A; B''),
             (''-- MEASUREMENT & DATA --'', ''C'')]"

text \<open>One study with the same ten codes in two category fields.\<close>

definition study_ten_codes :: row where
  "study_ten_codes =
     map_of [(''-- SAMPLING & DESIGN --'', ''a;b;c;d;e;f;g;h;i;j''),
             (''-- MEASUREMENT & DATA --'', ''a;b;c;d;e;f;g;h;i;j'')]"

text \<open>One study that names the code \<open>A\<close> twice in one field and once more in another.\<close>

definition study_repeated_code :: row where
  "study_repeated_code =
     map_of [(''-- SAMPLING & DESIGN --'', ''A: small sample; A: single site''),
             (''-- ANALYSIS & GENERALIZABILITY --'', ''A'')]"

text \<open>A study with the single code \<open>A\<close>, beside one with \<open>A\<close> and \<open>B\<close>.\<close>

definition study_one_code :: row where
  "study_one_code = map_of [(''-- SAMPLING & DESIGN --'', ''A: small sample; A'')]"

definition study_two_codes :: row where
  "study_two_codes = map_of [(''-- SAMPLING & DESIGN --'', ''A; B'')]"

section \<open>Basic facts\<close>

lemma split_nonempty: "split sep s \<noteq> []"
  by (induction s) (auto split: list.splits)

lemma hd_split: "hd (split sep s) = takeWhile (\<lambda>c. c \<noteq> sep) s"
  by (induction s) (auto split: list.splits simp: split_nonempty)

lemma length_split: "length (split sep s) = Suc (count_list s sep)"
  by (induction s) (auto split: list.splits simp: split_nonempty)

lemma strip_Nil: "strip [] = []"
  by (simp add: strip_def)

lemma code_key_alt: "code_key code = strip (takeWhile (\<lambda>c. c \<noteq> CHR '':'') code)"
proof (cases "CHR '':'' \<in> set code")
  case True
  then show ?thesis by (simp add: code_key_def hd_split)
next
  case False
  then have e: "takeWhile (\<lambda>c. c \<noteq> CHR '':'') code = code"
    by (auto simp: takeWhile_eq_all_conv)
  show ?thesis unfolding code_key_def e using False by simp
qed

lemma incr_apply: "incr M x y a b = M a b + (if a = x \<and> b = y then 1 else 0)"
  by (simp add: incr_def)

lemma bump_pair_apply:
  "bump_pair l1 M l2 a b =
     M a b + (if a = l1 \<and> b = l2 then 1 else 0) + (if a = l2 \<and> b = l1 then 1 else 0)"
  by (simp add: bump_pair_def incr_apply)

lemma foldl_bump_pair:
  "foldl (bump_pair l1) M rest a b =
     M a b + (if a = l1 then count_list rest b else 0) + (if b = l1 then count_list rest a else 0)"
  by (induction rest arbitrary: M) (auto simp: bump_pair_apply)

lemma count_list_distinct: "distinct xs \<Longrightarrow> count_list xs x = (if x \<in> set xs then 1 else 0)"
  by (induction xs) auto

lemma pair_loop_apply:
  "distinct xs \<Longrightarrow> pair_loop M xs a b = M a b + pair_delta xs a b"
proof (induction xs arbitrary: M)
  case Nil
  then show ?case by (simp add: pair_delta_def)
next
  case (Cons l1 rest)
  then have d: "distinct rest" and n: "l1 \<notin> set rest" by simp_all
  have "pair_loop M (l1 # rest) a b = foldl (bump_pair l1) M rest a b + pair_delta rest a b"
    using Cons.IH [OF d] by simp
  then show ?case using n
    by (auto simp: foldl_bump_pair count_list_distinct [OF d] pair_delta_def)
qed

lemma pair_loop_sym:
  "(\<And>a b. M a b = M b a) \<Longrightarrow> pair_loop M xs a b = pair_loop M xs b a"
proof (induction xs arbitrary: M a b)
  case Nil
  then show ?case by simp
next
  case (Cons l1 rest)
  have "\<And>a b. foldl (bump_pair l1) M rest a b = foldl (bump_pair l1) M rest b a"
    by (simp add: foldl_bump_pair Cons.prems)
  then show ?case using Cons.IH by simp
qed


lemma distinct_present: "distinct tops \<Longrightarrow> distinct (present_limitations tops cl)"
  by (simp add: present_limitations_def)

lemma set_present: "set (present_limitations tops cl) = set tops \<inter> set cl"
  by (auto simp: present_limitations_def)

lemma process_value_apply:
  "distinct tops \<Longrightarrow> process_value tops M value a b = M a b + field_delta tops value a b"
  by (cases "value") (simp_all add: process_value_def field_delta_def pair_loop_apply distinct_present)

lemma foldl_process_value:
  "distinct tops \<Longrightarrow>
   foldl (process_value tops) M vs a b = M a b + (\<Sum>v\<leftarrow>vs. field_delta tops v a b)"
  by (induction vs arbitrary: M) (simp_all add: process_value_apply)

lemma process_column_apply:
  "distinct tops \<Longrightarrow>
   process_column tops df M col a b = M a b + (\<Sum>r\<leftarrow>df. field_delta tops (r col) a b)"
  by (simp add: process_column_def column_def foldl_process_value comp_def)

lemma foldl_process_column:
  "distinct tops \<Longrightarrow>
   foldl (process_column tops df) M cols a b =
     M a b + (\<Sum>col\<leftarrow>cols. \<Sum>r\<leftarrow>df. field_delta tops (r col) a b)"
  by (induction cols arbitrary: M) (simp_all add: process_column_apply)

lemma fill_matrix_apply:
  "distinct tops \<Longrightarrow>
   fill_matrix tops df cols a b = (\<Sum>col\<leftarrow>cols. \<Sum>r\<leftarrow>df. field_delta tops (r col) a b)"
  by (simp add: fill_matrix_def foldl_process_column)

lemma keys_dict_incr:
  "map fst (dict_incr d k) = (if k \<in> set (map fst d) then map fst d else map fst d @ [k])"
  by (induction d k rule: dict_incr.induct) auto

lemma distinct_dict_incr: "distinct (map fst d) \<Longrightarrow> distinct (map fst (dict_incr d k))"
  by (simp add: keys_dict_incr)

lemma distinct_count_value: "distinct (map fst d) \<Longrightarrow> distinct (map fst (count_value d v))"
proof -
  have "distinct (map fst d) \<Longrightarrow> distinct (map fst (foldl (\<lambda>d' code. dict_incr d' (code_key code)) d cs))" for cs
    by (induction cs arbitrary: d) (simp_all add: distinct_dict_incr)
  then show "distinct (map fst d) \<Longrightarrow> distinct (map fst (count_value d v))"
    by (simp add: count_value_def)
qed

lemma distinct_foldl_count_value:
  "distinct (map fst d) \<Longrightarrow> distinct (map fst (foldl count_value d vs))"
  by (induction vs arbitrary: d) (simp_all add: distinct_count_value)

lemma distinct_count_column:
  "distinct (map fst d) \<Longrightarrow> distinct (map fst (count_column df d col))"
  by (simp add: count_column_def distinct_foldl_count_value)

lemma distinct_foldl_count_column:
  "distinct (map fst d) \<Longrightarrow> distinct (map fst (foldl (count_column df) d cols))"
  by (induction cols arbitrary: d) (simp_all add: distinct_count_column)

lemma distinct_limitation_counts: "distinct (map fst (limitation_counts df cols))"
  by (simp add: limitation_counts_def distinct_foldl_count_column)

lemma distinct_keys_sort_values:
  "distinct (map fst d) \<Longrightarrow> distinct (map fst (sort_values ties f d))"
  by (simp add: sort_values_def distinct_map)

lemma set_sort_values: "set (sort_values ties f d) = set d"
  by (simp add: sort_values_def)

lemma mset_sort_values: "mset (sort_values ties f d) = mset d"
  by (simp add: sort_values_def)

lemma sorted_sort_values: "sorted (rev (map f (sort_values ties f d)))"
  by (simp add: sort_values_def rev_map)

lemma position_nth:
  "distinct s \<Longrightarrow> i < length s \<Longrightarrow> length (takeWhile (\<lambda>y. y \<noteq> s ! i) s) = i"
proof (induction s arbitrary: i)
  case Nil
  then show ?case by simp
next
  case (Cons x s)
  then show ?case by (cases i) auto
qed

lemma position_inj:
  assumes "distinct s" "x \<in> set s" "y \<in> set s"
    and "length (takeWhile (\<lambda>z. z \<noteq> x) s) = length (takeWhile (\<lambda>z. z \<noteq> y) s)"
  shows "x = y"
proof -
  obtain i j where i: "i < length s" "s ! i = x" and j: "j < length s" "s ! j = y"
    using assms(2,3) by (auto simp: in_set_conv_nth)
  have "i = j"
    using position_nth [OF assms(1) i(1)] position_nth [OF assms(1) j(1)] i(2) j(2) assms(4)
    by simp
  with i j show ?thesis by simp
qed

lemma sorted_positions:
  assumes "distinct s"
  shows "sorted (map (\<lambda>x. length (takeWhile (\<lambda>y. y \<noteq> x) s)) s)"
proof -
  have "map (\<lambda>x. length (takeWhile (\<lambda>y. y \<noteq> x) s)) s = [0..<length s]"
    by (rule nth_equalityI) (simp_all add: position_nth [OF assms])
  then show ?thesis by simp
qed

lemma filter_eq_distinct: "distinct xs \<Longrightarrow> k \<in> set xs \<Longrightarrow> filter (\<lambda>x. k = x) xs = [k]"
proof (induction xs)
  case Nil
  then show ?case by simp
next
  case (Cons x xs)
  then show ?case by (cases "k = x") (auto simp: filter_empty_conv)
qed

lemma sort_values_any_order:
  assumes "mset s = mset d" and "distinct d" and "sorted (rev (map f s))"
  shows "\<exists>ties. sort_values ties f d = s"
proof -
  let ?pos = "\<lambda>x. length (takeWhile (\<lambda>y. y \<noteq> x) s)"
  have ds: "distinct s"
    using assms(1,2) by (metis mset_eq_imp_distinct_iff)
  have sets: "set d = set s"
    using assms(1) by (metis mset_eq_setD)
  have one: "filter (\<lambda>x. ?pos k = ?pos x) xs = filter (\<lambda>x. k = x) xs"
    if "k \<in> set s" "set xs = set s" for k xs
    by (rule filter_cong) (use that position_inj [OF ds] in auto)
  have "filter (\<lambda>x. ?pos k = ?pos x) s = filter (\<lambda>x. ?pos k = ?pos x) d" if "k \<in> set s" for k
  proof -
    have "filter (\<lambda>x. k = x) s = [k]" "filter (\<lambda>x. k = x) d = [k]"
      using that ds assms(2) sets by (simp_all add: filter_eq_distinct)
    then show ?thesis using one [OF that] sets by simp
  qed
  then have 1: "sort_key ?pos d = s"
    using assms(1) sorted_positions [OF ds] by (intro properties_for_sort_key) auto
  have 2: "sort_key f (rev s) = rev s"
    using assms(3) by (simp add: sort_key_id_if_sorted rev_map)
  show ?thesis
    by (rule exI [of _ ?pos]) (simp add: sort_values_def 1 2)
qed

lemma length_sort_values: "length (sort_values ties f d) = length d"
  by (simp add: sort_values_def)

lemma distinct_top_10: "distinct (top_10_limitations ties df cols)"
  by (simp add: top_10_limitations_def take_map [symmetric] distinct_take
      distinct_keys_sort_values distinct_limitation_counts)

lemma length_top_10: "length (top_10_limitations ties df cols) \<le> 10"
  by (simp add: top_10_limitations_def)


section \<open>The code extractor\<close>

lemma code_key_spec:
  "code_key p = strip (if CHR '':'' \<in> set p then takeWhile (\<lambda>c. c \<noteq> CHR '':'') p else p)"
  by (simp add: code_key_def hd_split)

lemma clean_codes_spec: "clean_codes s = spec_code_extractor s"
  unfolding clean_codes_def codes_def spec_code_extractor_def Let_def map_map comp_def
  by (simp only: code_key_spec)

text \<open>
  Claim C5. For a field that holds a string, the extractor of the script returns exactly
  the sequence the specification describes: the pieces between the semicolons, each trimmed,
  cut before its first colon if it has one, and trimmed again, in source order and with
  duplicates kept. \<^verbatim>\<open>"A: reason one; B: reason two"\<close> gives \<^verbatim>\<open>["A", "B"]\<close> and
  \<^verbatim>\<open>"A;B;A"\<close> gives \<^verbatim>\<open>["A", "B", "A"]\<close>.
\<close>

theorem code_extractor_refines_spec:
  "code_extractor (Some s) = spec_code_extractor s
   \<and> code_extractor (Some ''A: reason one; B: reason two'') = [''A'', ''B'']
   \<and> code_extractor (Some ''A;B;A'') = [''A'', ''B'', ''A'']"
proof -
  have 1: "code_extractor (Some s) = spec_code_extractor s"
    by (simp add: code_extractor_def clean_codes_spec)
  have 2: "code_extractor (Some ''A: reason one; B: reason two'') = [''A'', ''B'']"
    by (simp add: code_extractor_def clean_codes_def codes_def code_key_def strip_def isspace_def)
  have 3: "code_extractor (Some ''A;B;A'') = [''A'', ''B'', ''A'']"
    by (simp add: code_extractor_def clean_codes_def codes_def code_key_def strip_def isspace_def)
  from 1 2 3 show ?thesis by simp
qed

lemma count_value_tokens: "count_value d v = foldl dict_incr d (clean_codes v)"
  by (simp add: count_value_def clean_codes_def foldl_map)

lemma dropna_append: "dropna (xs @ ys) = dropna xs @ dropna ys"
  by (simp add: dropna_def)

lemma dropna_None: "dropna (None # xs) = dropna xs"
  by (simp add: dropna_def)

text \<open>
  Claim C7. A missing field yields no token: the extractor returns the empty sequence,
  \<^verbatim>\<open>dropna\<close> removes the field before the counting loop sees it, so a row whose field
  in the column is missing adds nothing to the counts of that column, and the matrix loop
  leaves the matrix as it is.
\<close>

theorem missing_field_no_tokens:
  "code_extractor None = []
   \<and> dropna (xs @ None # ys) = dropna (xs @ ys)
   \<and> count_column (rs @ r(col := None) # rs') d col = count_column (rs @ rs') d col
   \<and> process_value tops M None = M
   \<and> process_column tops (rs @ r(col := None) # rs') M col = process_column tops (rs @ rs') M col"
proof -
  have 1: "code_extractor None = []"
    by (simp add: code_extractor_def)
  have 2: "dropna (xs @ None # ys) = dropna (xs @ ys)" for xs ys
    by (simp add: dropna_append dropna_None)
  have 3: "count_column (rs @ r(col := None) # rs') d col = count_column (rs @ rs') d col"
    by (simp add: count_column_def column_def 2)
  have 4: "process_value tops M None = M" for M
    by (simp add: process_value_def)
  have 5: "process_column tops (rs @ r(col := None) # rs') M col = process_column tops (rs @ rs') M col"
    by (simp add: process_column_def column_def 4)
  from 1 2 3 4 5 show ?thesis by simp
qed

lemma code_key_Nil: "code_key [] = []"
  by (simp add: code_key_def strip_Nil)

lemma code_key_colon: "code_key (CHR '':'' # rest) = []"
  by (simp add: code_key_alt strip_Nil)

text \<open>
  Claim C8. Every piece between two semicolons yields one token, so none is dropped; a piece
  that is empty after trimming yields the empty string as its token, and so does a piece
  that begins with a colon after trimming.
\<close>

theorem empty_piece_and_leading_colon:
  assumes "k < length (split CHR '';'' s)"
    and "strip (split CHR '';'' s ! k) = [] \<or> (\<exists>rest. strip (split CHR '';'' s ! k) = CHR '':'' # rest)"
  shows "length (code_extractor (Some s)) = length (split CHR '';'' s)
         \<and> code_extractor (Some s) ! k = []"
  using assms
  by (auto simp: code_extractor_def clean_codes_def codes_def code_key_Nil code_key_colon)

theorem empty_piece_and_leading_colon_witness:
  "split CHR '';'' ''A;  ;B; :x'' = [''A'', ''  '', ''B'', '' :x'']
   \<and> strip ''  '' = [] \<and> strip '' :x'' = '':x''
   \<and> length (code_extractor (Some ''A;  ;B; :x'')) = 4
   \<and> code_extractor (Some ''A;  ;B; :x'') ! 1 = []
   \<and> code_extractor (Some ''A;  ;B; :x'') ! 3 = []"
proof -
  have s: "split CHR '';'' ''A;  ;B; :x'' = [''A'', ''  '', ''B'', '' :x'']" by simp
  have e: "strip ''  '' = []" by (simp add: strip_def isspace_def)
  have c: "strip '' :x'' = '':x''" by (simp add: strip_def isspace_def)
  have 1: "length (code_extractor (Some ''A;  ;B; :x'')) = 4
           \<and> code_extractor (Some ''A;  ;B; :x'') ! 1 = []"
    using empty_piece_and_leading_colon [of 1 "''A;  ;B; :x''"] by (simp add: s e)
  have 3: "code_extractor (Some ''A;  ;B; :x'') ! 3 = []"
    using empty_piece_and_leading_colon [of 3 "''A;  ;B; :x''"] by (simp add: s c)
  from s e c 1 3 show ?thesis by simp
qed

section \<open>Symmetry and the diagonal\<close>

lemma process_value_sym:
  "(\<And>a b. M a b = M b a) \<Longrightarrow> process_value tops M value a b = process_value tops M value b a"
  by (cases "value") (simp_all add: process_value_def pair_loop_sym)

lemma foldl_process_value_sym:
  "(\<And>a b. M a b = M b a) \<Longrightarrow>
   foldl (process_value tops) M vs a b = foldl (process_value tops) M vs b a"
proof (induction vs arbitrary: M a b)
  case Nil
  then show ?case by simp
next
  case (Cons v vs)
  have "\<And>a b. process_value tops M v a b = process_value tops M v b a"
    by (rule process_value_sym) (rule Cons.prems)
  then show ?case using Cons.IH by simp
qed

lemma foldl_process_column_sym:
  "(\<And>a b. M a b = M b a) \<Longrightarrow>
   foldl (process_column tops df) M cols a b = foldl (process_column tops df) M cols b a"
proof (induction cols arbitrary: M a b)
  case Nil
  then show ?case by simp
next
  case (Cons col cols)
  have "\<And>a b. process_column tops df M col a b = process_column tops df M col b a"
    unfolding process_column_def by (rule foldl_process_value_sym) (rule Cons.prems)
  then show ?case using Cons.IH by simp
qed

lemma fill_matrix_sym: "fill_matrix tops df cols a b = fill_matrix tops df cols b a"
  unfolding fill_matrix_def by (rule foldl_process_column_sym) simp

text \<open>
  Claim C6. The completed co-occurrence matrix is symmetric, for every data frame, every
  list of columns and every order of ties: the cell at \<open>(i, j)\<close> equals the cell at \<open>(j, i)\<close>, in the matrix of
  counts and in the matrix of percentages the function returns.
\<close>

theorem cooccurrence_matrix_symmetric:
  "cooccurrence_matrix ties df cols i j = cooccurrence_matrix ties df cols j i
   \<and> analyze_limitation_cooccurrence ties df cols i j = analyze_limitation_cooccurrence ties df cols j i"
  by (simp add: cooccurrence_matrix_def analyze_limitation_cooccurrence_def
      fill_matrix_sym [of _ _ _ i j])

lemma field_delta_diag: "field_delta tops value a a = 0"
  by (cases "value") (simp_all add: field_delta_def pair_delta_def)

text \<open>
  Claim C10. Every diagonal cell of the completed co-occurrence matrix is zero, for every
  data frame, every list of columns and every order of ties: the matrix
  starts at zero, the top codes are the keys of a dictionary and therefore distinct, and
  the pairs of a field are taken between different positions of its list of present codes.
\<close>

theorem cooccurrence_matrix_diagonal_zero:
  "cooccurrence_matrix ties df cols i i = 0"
  by (simp add: cooccurrence_matrix_def fill_matrix_apply [OF distinct_top_10] field_delta_diag)


section \<open>What the frequency table counts\<close>

lemma map_of_dict_incr:
  "map_of (dict_incr d k) = (map_of d)(k \<mapsto> (case map_of d k of None \<Rightarrow> 1 | Some n \<Rightarrow> Suc n))"
  by (induction d k rule: dict_incr.induct) (auto simp: fun_eq_iff)

lemma count_of_dict_incr: "count_of (dict_incr d k) c = count_of d c + (if c = k then 1 else 0)"
  by (simp add: count_of_def map_of_dict_incr split: option.splits)

lemma dom_dict_incr:
  "map_of (dict_incr d k) c = None \<longleftrightarrow> map_of d c = None \<and> c \<noteq> k"
  by (simp add: map_of_dict_incr)

lemma positive_dict_incr:
  "(\<And>c. map_of d c \<noteq> Some 0) \<Longrightarrow> map_of (dict_incr d k) c \<noteq> Some 0"
  by (simp add: map_of_dict_incr split: option.splits)

lemma count_of_foldl_dict_incr:
  "count_of (foldl dict_incr d ks) c = count_of d c + count_list ks c"
  by (induction ks arbitrary: d) (simp_all add: count_of_dict_incr)

lemma positive_foldl_dict_incr:
  "(\<And>c. map_of d c \<noteq> Some 0) \<Longrightarrow> map_of (foldl dict_incr d ks) c \<noteq> Some 0"
proof (induction ks arbitrary: d c)
  case Nil
  then show ?case by simp
next
  case (Cons k ks)
  have "\<And>c. map_of (dict_incr d k) c \<noteq> Some 0"
    by (rule positive_dict_incr) (rule Cons.prems)
  then show ?case using Cons.IH by simp
qed

lemma count_of_count_value:
  "count_of (count_value d v) c = count_of d c + count_list (clean_codes v) c"
  by (simp add: count_value_tokens count_of_foldl_dict_incr)

lemma positive_count_value:
  "(\<And>c. map_of d c \<noteq> Some 0) \<Longrightarrow> map_of (count_value d v) c \<noteq> Some 0"
  by (simp add: count_value_tokens positive_foldl_dict_incr)

lemma count_of_foldl_count_value:
  "count_of (foldl count_value d vs) c = count_of d c + (\<Sum>v\<leftarrow>vs. count_list (clean_codes v) c)"
  by (induction vs arbitrary: d) (simp_all add: count_of_count_value)

lemma positive_foldl_count_value:
  "(\<And>c. map_of d c \<noteq> Some 0) \<Longrightarrow> map_of (foldl count_value d vs) c \<noteq> Some 0"
proof (induction vs arbitrary: d c)
  case Nil
  then show ?case by simp
next
  case (Cons v vs)
  have "\<And>c. map_of (count_value d v) c \<noteq> Some 0"
    by (rule positive_count_value) (rule Cons.prems)
  then show ?case using Cons.IH by simp
qed

lemma sum_dropna:
  "(\<Sum>v\<leftarrow>dropna fs. count_list (clean_codes v) c) = (\<Sum>f\<leftarrow>fs. count_list (code_extractor f) c)"
proof (induction fs)
  case Nil
  then show ?case by (simp add: dropna_def)
next
  case (Cons f fs)
  then show ?case by (cases f) (simp_all add: dropna_def code_extractor_def)
qed

lemma count_of_count_column:
  "count_of (count_column df d col) c =
     count_of d c + (\<Sum>r\<leftarrow>df. count_list (code_extractor (r col)) c)"
  by (simp add: count_column_def count_of_foldl_count_value sum_dropna column_def comp_def)

lemma positive_count_column:
  "(\<And>c. map_of d c \<noteq> Some 0) \<Longrightarrow> map_of (count_column df d col) c \<noteq> Some 0"
  by (simp add: count_column_def positive_foldl_count_value)

lemma count_of_foldl_count_column:
  "count_of (foldl (count_column df) d cols) c = count_of d c + token_count df cols c"
  by (induction cols arbitrary: d) (simp_all add: count_of_count_column token_count_def)

lemma positive_foldl_count_column:
  "(\<And>c. map_of d c \<noteq> Some 0) \<Longrightarrow> map_of (foldl (count_column df) d cols) c \<noteq> Some 0"
proof (induction cols arbitrary: d c)
  case Nil
  then show ?case by simp
next
  case (Cons col cols)
  have "\<And>c. map_of (count_column df d col) c \<noteq> Some 0"
    by (rule positive_count_column) (rule Cons.prems)
  then show ?case using Cons.IH by simp
qed

lemma count_of_limitation_counts:
  "count_of (limitation_counts df cols) c = token_count df cols c"
proof -
  have "count_of [] c = 0" by (simp add: count_of_def)
  then show ?thesis by (simp add: limitation_counts_def count_of_foldl_count_column)
qed

lemma positive_limitation_counts: "map_of (limitation_counts df cols) c \<noteq> Some 0"
  unfolding limitation_counts_def by (rule positive_foldl_count_column) simp

lemma map_of_limitation_counts:
  "map_of (limitation_counts df cols) c =
     (if token_count df cols c = 0 then None else Some (token_count df cols c))"
  using count_of_limitation_counts [of df cols c] positive_limitation_counts [of df cols c]
  by (auto simp: count_of_def split: option.splits)

lemma map_of_sort_values:
  assumes "distinct (map fst d)"
  shows "map_of (sort_values ties f d) = map_of d"
proof -
  have "distinct (map fst (sort_values ties f d))"
    using assms by (rule distinct_keys_sort_values)
  then show ?thesis
    using assms by (simp add: map_of_inject_set set_sort_values)
qed

lemma keys_with_percentage:
  "map fst (map (\<lambda>(k, n). (k, n, g n)) d) = map fst d"
  by (induction d) auto

lemma token_count_needs_rows: "token_count df cols c \<noteq> 0 \<Longrightarrow> df \<noteq> []"
  by (auto simp: token_count_def)

text \<open>
  What the frequency table holds for a code, for every order of ties: the number of tokens
  equal to the code over all category fields of all records, with that number over the
  number of records, times 100, beside it; a code without any token has no row.
\<close>

lemma frequency_table_counts_tokens:
  "map_of (analyze_specific_limitations ties df cols) c =
     (if token_count df cols c = 0 then None
      else Some (token_count df cols c, percentage (token_count df cols c) (length df)))"
proof -
  let ?g = "\<lambda>n. (n, percentage n (length df))"
  let ?rows = "map (\<lambda>(k, n). (k, ?g n)) (limitation_counts df cols)"
  have d: "distinct (map fst ?rows)"
    by (simp only: keys_with_percentage distinct_limitation_counts)
  have "map_of (analyze_specific_limitations ties df cols) c = map_of ?rows c"
    unfolding analyze_specific_limitations_def using map_of_sort_values [OF d] by simp
  also have "\<dots> = map_option ?g (map_of (limitation_counts df cols) c)"
    by (simp add: map_of_map)
  finally show ?thesis by (simp add: map_of_limitation_counts)
qed

text \<open>
  Claim C2 at a frame of one record that names the code \<open>A\<close> twice in one category field
  and once in another. Whatever the order of ties, the table holds the count 3 and the
  percentage 300 for \<open>A\<close>, where one record contains \<open>A\<close>, which is 100 percent of the
  records: the table does not map \<open>A\<close> to the number of records that contain it.
\<close>

theorem repeated_code_counted_per_token:
  "map_of (analyze_specific_limitations ties [study_repeated_code] load_data_limitation_columns) ''A''
     = Some (3, 300)
   \<and> records_containing [study_repeated_code] load_data_limitation_columns ''A'' = 1
   \<and> percentage (records_containing [study_repeated_code] load_data_limitation_columns ''A'')
        (length [study_repeated_code]) = 100"
proof -
  have t: "token_count [study_repeated_code] load_data_limitation_columns ''A'' = 3"
    by code_simp
  have p: "percentage 3 (length [study_repeated_code]) = 300"
    by (simp add: percentage_def)
  have r: "records_containing [study_repeated_code] load_data_limitation_columns ''A'' = 1"
    by code_simp
  have q: "percentage 1 (length [study_repeated_code]) = 100"
    by (simp add: percentage_def)
  have "map_of (analyze_specific_limitations ties [study_repeated_code] load_data_limitation_columns) ''A''
     = Some (3, 300)"
    by (simp only: frequency_table_counts_tokens t p) simp
  with r q show ?thesis by simp
qed

section \<open>Records with at most one qualifying code\<close>

lemma set_record_codes:
  "set (record_codes cols r) = (\<Union>col\<in>set cols. set (code_extractor (r col)))"
  by (simp add: record_codes_def)

lemma set_qualifying:
  "set (qualifying tops cols r) = set tops \<inter> set (record_codes cols r)"
  by (auto simp: qualifying_def)

lemma present_subset_qualifying:
  assumes "col \<in> set cols" and "r col = Some v"
  shows "set (present_limitations tops (clean_codes v)) \<subseteq> set (qualifying tops cols r)"
proof -
  have "set (clean_codes v) \<subseteq> set (record_codes cols r)"
    using assms by (force simp: set_record_codes code_extractor_def)
  then show ?thesis
    by (auto simp: set_present set_qualifying)
qed

lemma short_list_one_element:
  "length q \<le> 1 \<Longrightarrow> a \<in> set q \<Longrightarrow> b \<in> set q \<Longrightarrow> a = b"
  by (cases q) auto

lemma field_delta_single:
  assumes "length (qualifying tops cols r) \<le> 1" and "col \<in> set cols"
  shows "field_delta tops (r col) a b = 0"
proof (cases "r col")
  case None
  then show ?thesis by (simp add: field_delta_def)
next
  case (Some v)
  have sub: "set (present_limitations tops (clean_codes v)) \<subseteq> set (qualifying tops cols r)"
    using assms(2) Some by (rule present_subset_qualifying)
  have "a = b" if "a \<in> set (present_limitations tops (clean_codes v))"
    and "b \<in> set (present_limitations tops (clean_codes v))"
    using short_list_one_element [OF assms(1)] sub that by blast
  then show ?thesis
    using Some by (auto simp: field_delta_def pair_delta_def)
qed

lemma process_value_single:
  assumes "distinct tops" and "length (qualifying tops cols r) \<le> 1" and "col \<in> set cols"
  shows "process_value tops M (r col) = M"
proof (intro ext)
  fix a b
  show "process_value tops M (r col) a b = M a b"
    using field_delta_single [OF assms(2,3)] by (simp add: process_value_apply [OF assms(1)])
qed

lemma fill_matrix_without_single:
  assumes "distinct tops" and "length (qualifying tops cols r) \<le> 1"
  shows "fill_matrix tops (xs @ r # ys) cols = fill_matrix tops (xs @ ys) cols"
proof (intro ext)
  fix a b
  have "(\<Sum>r'\<leftarrow>xs @ r # ys. field_delta tops (r' col) a b)
        = (\<Sum>r'\<leftarrow>xs @ ys. field_delta tops (r' col) a b)" if "col \<in> set cols" for col
    using field_delta_single [OF assms(2) that] by simp
  then have "map (\<lambda>col. \<Sum>r'\<leftarrow>xs @ r # ys. field_delta tops (r' col) a b) cols
        = map (\<lambda>col. \<Sum>r'\<leftarrow>xs @ ys. field_delta tops (r' col) a b) cols"
    by (intro map_cong) simp_all
  then show "fill_matrix tops (xs @ r # ys) cols a b = fill_matrix tops (xs @ ys) cols a b"
    by (simp only: fill_matrix_apply [OF assms(1)])
qed

text \<open>
  Claim C9. Whatever the order of ties: if the codes of a record, taken over all its
  category fields, include at most one of the top codes, then the matrix loop leaves every cell as it is at each field of
  that record, whatever the matrix holds at that moment; and the completed matrix is the
  one the loop builds, for the same top codes, from the frame without that record.
\<close>

theorem record_with_at_most_one_code:
  assumes "length (qualifying (top_10_limitations ties df cols) cols r) \<le> 1"
  shows "(\<forall>col\<in>set cols. process_value (top_10_limitations ties df cols) M (r col) = M)
         \<and> (\<forall>xs ys. df = xs @ r # ys \<longrightarrow>
              cooccurrence_matrix ties df cols = fill_matrix (top_10_limitations ties df cols) (xs @ ys) cols)"
proof (intro conjI ballI allI impI)
  fix col
  assume "col \<in> set cols"
  then show "process_value (top_10_limitations ties df cols) M (r col) = M"
    by (rule process_value_single [OF distinct_top_10 assms])
next
  fix xs ys
  assume e: "df = xs @ r # ys"
  define T where "T = top_10_limitations ties df cols"
  have "cooccurrence_matrix ties df cols = fill_matrix T df cols"
    by (simp add: cooccurrence_matrix_def T_def)
  also have "\<dots> = fill_matrix T (xs @ r # ys) cols"
    by (simp only: e)
  also have "\<dots> = fill_matrix T (xs @ ys) cols"
    unfolding T_def by (rule fill_matrix_without_single [OF distinct_top_10 assms])
  finally show "cooccurrence_matrix ties df cols = fill_matrix (top_10_limitations ties df cols) (xs @ ys) cols"
    by (simp only: T_def)
qed

theorem record_with_at_most_one_code_witness:
  "length (qualifying (top_10_limitations (\<lambda>x. 0) [study_two_codes, study_one_code] load_data_limitation_columns)
             load_data_limitation_columns study_one_code) \<le> 1
   \<and> process_value (top_10_limitations (\<lambda>x. 0) [study_two_codes, study_one_code] load_data_limitation_columns)
        (\<lambda>a b. 0) (study_one_code ''-- SAMPLING & DESIGN --'') = (\<lambda>a b. 0)
   \<and> cooccurrence_matrix (\<lambda>x. 0) [study_two_codes, study_one_code] load_data_limitation_columns
       = fill_matrix (top_10_limitations (\<lambda>x. 0) [study_two_codes, study_one_code] load_data_limitation_columns)
           [study_two_codes] load_data_limitation_columns"
proof -
  let ?df = "[study_two_codes, study_one_code]"
  have h: "length (qualifying (top_10_limitations (\<lambda>x. 0) ?df load_data_limitation_columns)
             load_data_limitation_columns study_one_code) \<le> 1"
    by code_simp
  have c: "''-- SAMPLING & DESIGN --'' \<in> set load_data_limitation_columns"
    by (simp add: load_data_limitation_columns_def)
  have e: "?df = [study_two_codes] @ study_one_code # []" by simp
  note t = record_with_at_most_one_code [OF h]
  from t [of "\<lambda>a b. 0"] c
  have 1: "process_value (top_10_limitations (\<lambda>x. 0) ?df load_data_limitation_columns)
        (\<lambda>a b. 0) (study_one_code ''-- SAMPLING & DESIGN --'') = (\<lambda>a b. 0)"
    by blast
  from t [of "\<lambda>a b. 0"] e
  have 2: "cooccurrence_matrix (\<lambda>x. 0) ?df load_data_limitation_columns
       = fill_matrix (top_10_limitations (\<lambda>x. 0) ?df load_data_limitation_columns)
           ([study_two_codes] @ []) load_data_limitation_columns"
    by blast
  from h 1 2 show ?thesis by simp
qed

section \<open>What a cell of the matrix counts\<close>

lemma cooccurrence_matrix_counts_fields:
  "cooccurrence_matrix ties df cols a b =
     (\<Sum>col\<leftarrow>cols. \<Sum>r\<leftarrow>df. field_delta (top_10_limitations ties df cols) (r col) a b)"
  by (simp add: cooccurrence_matrix_def fill_matrix_apply [OF distinct_top_10])

text \<open>
  With at most ten codes in the frame, all of them are top codes, and neither the cells of
  the matrix nor the sums over its labels depend on the order of ties.
\<close>

lemma mset_top_10_few:
  assumes "length (limitation_counts df cols) \<le> 10"
  shows "mset (top_10_limitations ties df cols) = mset (map fst (limitation_counts df cols))"
proof -
  have "take 10 (sort_values ties snd (limitation_counts df cols))
        = sort_values ties snd (limitation_counts df cols)"
    using assms by (simp add: length_sort_values)
  then show ?thesis
    by (simp add: top_10_limitations_def mset_sort_values)
qed

lemma set_top_10_few:
  assumes "length (limitation_counts df cols) \<le> 10"
  shows "set (top_10_limitations ties df cols) = set (map fst (limitation_counts df cols))"
  using mset_top_10_few [OF assms] by (rule mset_eq_setD)

lemma field_delta_set_cong:
  "set tops = set tops' \<Longrightarrow> field_delta tops value a b = field_delta tops' value a b"
  by (cases "value") (simp_all add: field_delta_def pair_delta_def set_present)

lemma fill_matrix_set_cong:
  assumes "distinct tops" and "distinct tops'" and "set tops = set tops'"
  shows "fill_matrix tops df cols = fill_matrix tops' df cols"
proof (intro ext)
  fix a b
  show "fill_matrix tops df cols a b = fill_matrix tops' df cols a b"
    by (simp only: fill_matrix_apply [OF assms(1)] fill_matrix_apply [OF assms(2)]
        field_delta_set_cong [OF assms(3)])
qed

lemma cooccurrence_matrix_few:
  assumes "length (limitation_counts df cols) \<le> 10"
  shows "cooccurrence_matrix ties df cols = fill_matrix (map fst (limitation_counts df cols)) df cols"
  unfolding cooccurrence_matrix_def
  by (rule fill_matrix_set_cong [OF distinct_top_10 distinct_limitation_counts set_top_10_few [OF assms]])

lemma qualifying_set_cong:
  "set tops = set tops' \<Longrightarrow> qualifying tops cols r = qualifying tops' cols r"
  by (simp add: qualifying_def)

lemma records_with_both_set_cong:
  "set tops = set tops' \<Longrightarrow> records_with_both tops df cols i j = records_with_both tops' df cols i j"
  by (simp add: records_with_both_def qualifying_set_cong [of tops tops'])

lemma offdiag_sum_mset_cong:
  assumes "mset tops = mset tops'"
  shows "offdiag_sum tops M = offdiag_sum tops' M"
proof -
  have "offdiag_sum xs M
        = (\<Sum>a\<in>#mset xs. \<Sum>b\<in>#mset xs. if a \<noteq> b then M a b else 0)" for xs
    by (simp add: offdiag_sum_def sum_mset_sum_list [symmetric] del: sum_mset_sum_list)
  then show ?thesis using assms by simp
qed

text \<open>
  Claim C1 at two frames of one record each, for every order of ties. A record that reports
  \<open>A\<close> and \<open>B\<close> together in two category fields puts 2 into cell \<open>(A, B)\<close>, returned as
  200 percent of the studies, where one record contains both codes. A record that reports
  \<open>A\<close> in one category field and \<open>B\<close> in another leaves cell \<open>(A, B)\<close> at 0, where again
  one record contains both codes. The script labels the cells
  \<^verbatim>\<open>Percentage of Studies Reporting Both\<close>.
\<close>

theorem pair_in_two_fields_counted_twice:
  "cooccurrence_matrix ties [study_pair_twice] load_data_limitation_columns ''A'' ''B'' = 2
   \<and> analyze_limitation_cooccurrence ties [study_pair_twice] load_data_limitation_columns ''A'' ''B'' = 200
   \<and> records_with_both (top_10_limitations ties [study_pair_twice] load_data_limitation_columns)
        [study_pair_twice] load_data_limitation_columns ''A'' ''B'' = 1
   \<and> cooccurrence_matrix ties [study_pair_apart] load_data_limitation_columns ''A'' ''B'' = 0
   \<and> records_with_both (top_10_limitations ties [study_pair_apart] load_data_limitation_columns)
        [study_pair_apart] load_data_limitation_columns ''A'' ''B'' = 1"
proof -
  let ?c = load_data_limitation_columns
  have few: "length (limitation_counts [study_pair_twice] ?c) \<le> 10"
    by code_simp
  have few': "length (limitation_counts [study_pair_apart] ?c) \<le> 10"
    by code_simp
  have "fill_matrix (map fst (limitation_counts [study_pair_twice] ?c)) [study_pair_twice] ?c
          ''A'' ''B'' = 2"
    by code_simp
  then have 1: "cooccurrence_matrix ties [study_pair_twice] ?c ''A'' ''B'' = 2"
    by (simp only: cooccurrence_matrix_few [OF few])
  have 2: "analyze_limitation_cooccurrence ties [study_pair_twice] ?c ''A'' ''B'' = 200"
    by (simp add: analyze_limitation_cooccurrence_def 1 percentage_def)
  have "records_with_both (map fst (limitation_counts [study_pair_twice] ?c))
          [study_pair_twice] ?c ''A'' ''B'' = 1"
    by code_simp
  then have 3: "records_with_both (top_10_limitations ties [study_pair_twice] ?c)
          [study_pair_twice] ?c ''A'' ''B'' = 1"
    by (simp only: records_with_both_set_cong [OF set_top_10_few [OF few]])
  have "fill_matrix (map fst (limitation_counts [study_pair_apart] ?c)) [study_pair_apart] ?c
          ''A'' ''B'' = 0"
    by code_simp
  then have 4: "cooccurrence_matrix ties [study_pair_apart] ?c ''A'' ''B'' = 0"
    by (simp only: cooccurrence_matrix_few [OF few'])
  have "records_with_both (map fst (limitation_counts [study_pair_apart] ?c))
          [study_pair_apart] ?c ''A'' ''B'' = 1"
    by code_simp
  then have 5: "records_with_both (top_10_limitations ties [study_pair_apart] ?c)
          [study_pair_apart] ?c ''A'' ''B'' = 1"
    by (simp only: records_with_both_set_cong [OF set_top_10_few [OF few']])
  from 1 2 3 4 5 show ?thesis by (intro conjI)
qed

text \<open>
  Claim C3 at a frame of one record whose qualifying codes are exactly \<open>A\<close>, \<open>B\<close>, \<open>C\<close>,
  with \<open>A\<close> and \<open>B\<close> in one category field and \<open>C\<close> in another, for every order of ties:
  the loop increments the cells \<open>(A, B)\<close> and \<open>(B, A)\<close> only; the cells of the pairs
  \<open>(A, C)\<close> and \<open>(B, C)\<close> stay 0.
\<close>

theorem three_codes_in_two_fields:
  "qualifying (top_10_limitations ties [study_three_codes] load_data_limitation_columns)
     load_data_limitation_columns study_three_codes = [''A'', ''B'', ''C'']
   \<and> map (\<lambda>a. map (cooccurrence_matrix ties [study_three_codes] load_data_limitation_columns a)
                 [''A'', ''B'', ''C'']) [''A'', ''B'', ''C'']
       = [[0, 1, 0], [1, 0, 0], [0, 0, 0]]"
proof -
  let ?c = load_data_limitation_columns
  have few: "length (limitation_counts [study_three_codes] ?c) \<le> 10"
    by code_simp
  have "qualifying (map fst (limitation_counts [study_three_codes] ?c)) ?c study_three_codes
          = [''A'', ''B'', ''C'']"
    by code_simp
  then have 1: "qualifying (top_10_limitations ties [study_three_codes] ?c) ?c study_three_codes
          = [''A'', ''B'', ''C'']"
    by (simp only: qualifying_set_cong [OF set_top_10_few [OF few]])
  have "map (\<lambda>a. map (fill_matrix (map fst (limitation_counts [study_three_codes] ?c))
                          [study_three_codes] ?c a) [''A'', ''B'', ''C'']) [''A'', ''B'', ''C'']
          = [[0, 1, 0], [1, 0, 0], [0, 0, 0]]"
    by code_simp
  then have 2: "map (\<lambda>a. map (cooccurrence_matrix ties [study_three_codes] ?c a)
                 [''A'', ''B'', ''C'']) [''A'', ''B'', ''C'']
          = [[0, 1, 0], [1, 0, 0], [0, 0, 0]]"
    by (simp only: cooccurrence_matrix_few [OF few])
  from 1 2 show ?thesis by (intro conjI)
qed

text \<open>
  Claim C4 at a frame of one record that reports the same ten codes in two category fields,
  for every order of ties: all ten are top codes, half the sum of the cells off the diagonal
  is 90, and the number of records times \<open>C(10, 2)\<close> is 45.
\<close>

theorem ten_codes_in_two_fields:
  "length (top_10_limitations ties [study_ten_codes] load_data_limitation_columns) = 10
   \<and> offdiag_sum (top_10_limitations ties [study_ten_codes] load_data_limitation_columns)
        (cooccurrence_matrix ties [study_ten_codes] load_data_limitation_columns) div 2 = 90
   \<and> length [study_ten_codes] * (10 choose 2) = 45"
proof -
  let ?c = load_data_limitation_columns
  have len: "length (limitation_counts [study_ten_codes] ?c) = 10"
    by code_simp
  then have few: "length (limitation_counts [study_ten_codes] ?c) \<le> 10"
    by simp
  have 1: "length (top_10_limitations ties [study_ten_codes] ?c) = 10"
    using len by (simp add: top_10_limitations_def length_sort_values)
  have "offdiag_sum (map fst (limitation_counts [study_ten_codes] ?c))
          (fill_matrix (map fst (limitation_counts [study_ten_codes] ?c)) [study_ten_codes] ?c)
          div 2 = 90"
    by code_simp
  then have 2: "offdiag_sum (top_10_limitations ties [study_ten_codes] ?c)
          (cooccurrence_matrix ties [study_ten_codes] ?c) div 2 = 90"
    by (simp only: cooccurrence_matrix_few [OF few] offdiag_sum_mset_cong [OF mset_top_10_few [OF few]])
  have 3: "length [study_ten_codes] * (10 choose 2) = 45"
    by code_simp
  from 1 2 3 show ?thesis by (intro conjI)
qed

end
